theory Spec2Isabelle
  imports Main
begin

section \<open>Data model\<close>

text \<open>
  The embedding follows \<^verbatim>\<open>tools/gcp_bigquery.py\<close>. Python strings are HOL strings; a
  character stands for one code point in the range 0 to 255. Python integers are \<open>int\<close>. The BigQuery client library, \<^verbatim>\<open>argparse\<close>,
  \<^verbatim>\<open>tabulate\<close> and the process environment are not part of the program: they are
  parameters of the model.
\<close>

text \<open>
  Exceptions. The handlers catch \<^verbatim>\<open>GoogleCloudError\<close> and let every other exception
  pass; each exception carries the text that \<^verbatim>\<open>str(e)\<close> gives.
\<close>

datatype exn = GoogleCloudError string | OtherError string

text \<open>
  A value stored in an output row: the listing commands store strings, \<^verbatim>\<open>run_query\<close> stores
  the native scalars of the query result (type \<open>'v\<close>).
\<close>

datatype 'v cell = Text string | Scalar 'v

text \<open>
  A Python \<^verbatim>\<open>dict\<close> keeps its keys in insertion order; assigning to a key that is present
  replaces the value in place.
\<close>

type_synonym 'v row_dict = "(string \<times> 'v cell) list"

fun dict_set :: "('k \<times> 'a) list \<Rightarrow> 'k \<Rightarrow> 'a \<Rightarrow> ('k \<times> 'a) list" where
  "dict_set [] k v = [(k, v)]"
| "dict_set ((k', v') # d) k v = (if k' = k then (k, v) # d else (k', v') # dict_set d k v)"

text \<open>The value \<^verbatim>\<open>Union[List[Dict[str, Any]], str]\<close> that the formatter receives.\<close>

datatype 'v data = Message string | Table "'v row_dict list"

text \<open>Python truthiness of such a value (\<^verbatim>\<open>not data\<close> is its negation).\<close>

fun truthy :: "'v data \<Rightarrow> bool" where
  "truthy (Message s) = (s \<noteq> [])"
| "truthy (Table rs) = (rs \<noteq> [])"

text \<open>\<^verbatim>\<open>x or ""\<close> for an optional string.\<close>

fun or_empty :: "string option \<Rightarrow> string" where
  "or_empty None = ''''"
| "or_empty (Some s) = s"

text \<open>\<^verbatim>\<open>str\<close> of an integer, and of an optional integer as an f-string renders it.\<close>

definition digit_char :: "nat \<Rightarrow> char" where
  "digit_char d = char_of (48 + d)"

fun digits :: "nat \<Rightarrow> string" where
  "digits n = (if n < 10 then [digit_char n] else digits (n div 10) @ [digit_char (n mod 10)])"

declare digits.simps [simp del]

definition str_int :: "int \<Rightarrow> string" where
  "str_int i = (if i < 0 then CHR ''-'' # digits (nat (- i)) else digits (nat i))"

fun str_opt_int :: "int option \<Rightarrow> string" where
  "str_opt_int None = ''None''"
| "str_opt_int (Some i) = str_int i"

section \<open>Regular expressions of the safety filter\<close>

text \<open>
  The three patterns use literals, alternation, concatenation, \<^verbatim>\<open>\b\<close>, and \<^verbatim>\<open>.*\<close>, all under
  \<^verbatim>\<open>re.IGNORECASE\<close>. The matcher below gives them the meaning Python's \<^verbatim>\<open>re\<close> module gives
  them on code points 0 to 255.
\<close>

text \<open>The class \<^verbatim>\<open>\w\<close>: Unicode alphanumerics and the underscore.\<close>

definition is_word :: "char \<Rightarrow> bool" where
  "is_word c =
     (let n = (of_char c :: nat) in
        (48 \<le> n \<and> n \<le> 57) \<or> (65 \<le> n \<and> n \<le> 90) \<or> n = 95 \<or> (97 \<le> n \<and> n \<le> 122)
        \<or> n = 170 \<or> n = 178 \<or> n = 179 \<or> n = 181 \<or> n = 185 \<or> n = 186
        \<or> (188 \<le> n \<and> n \<le> 190) \<or> (192 \<le> n \<and> n \<le> 214) \<or> (216 \<le> n \<and> n \<le> 246)
        \<or> 248 \<le> n)"

text \<open>The simple lower-case mapping that case-insensitive matching compares through.\<close>

definition lower :: "char \<Rightarrow> char" where
  "lower c =
     (let n = (of_char c :: nat) in
        if (65 \<le> n \<and> n \<le> 90) \<or> (192 \<le> n \<and> n \<le> 222 \<and> n \<noteq> 215) then char_of (n + 32) else c)"

datatype regex =
    Lit char
  | Dot
  | WordBoundary
  | Eps
  | Seq regex regex
  | Alt regex regex
  | Star regex

text \<open>A position in the subject string: the text before it and the text after it.\<close>

type_synonym pos = "string \<times> string"

text \<open>\<^verbatim>\<open>\b\<close> holds where exactly one of the two neighbouring characters is a word character.\<close>

definition at_boundary :: "pos \<Rightarrow> bool" where
  "at_boundary p =
     (let thatword = (fst p \<noteq> [] \<and> is_word (last (fst p)));
          thisword = (snd p \<noteq> [] \<and> is_word (hd (snd p)))
      in thisword \<noteq> thatword)"

definition char_eq :: "bool \<Rightarrow> char \<Rightarrow> char \<Rightarrow> bool" where
  "char_eq ignorecase c x = (if ignorecase then lower x = lower c else x = c)"

text \<open>
  \<open>ends ic r p\<close> lists the positions at which a match of \<open>r\<close> that starts at \<open>p\<close> can end, in
  the order in which a backtracking matcher tries them (\<^verbatim>\<open>*\<close> is greedy).
\<close>

fun ends :: "bool \<Rightarrow> regex \<Rightarrow> pos \<Rightarrow> pos list" where
  "ends ic (Lit c) (b, a) =
     (case a of [] \<Rightarrow> [] | x # xs \<Rightarrow> if char_eq ic c x then [(b @ [x], xs)] else [])"
| "ends ic Dot (b, a) =
     (case a of [] \<Rightarrow> [] | x # xs \<Rightarrow> if x \<noteq> CHR 0x0A then [(b @ [x], xs)] else [])"
| "ends ic WordBoundary (b, a) = (if at_boundary (b, a) then [(b, a)] else [])"
| "ends ic Eps (b, a) = [(b, a)]"
| "ends ic (Seq r s) (b, a) = concat (map (ends ic s) (ends ic r (b, a)))"
| "ends ic (Alt r s) (b, a) = ends ic r (b, a) @ ends ic s (b, a)"
| "ends ic (Star r) (b, a) =
     concat (map (\<lambda>p. if length (snd p) < length a then ends ic (Star r) p else [])
                 (ends ic r (b, a))) @ [(b, a)]"

text \<open>\<^verbatim>\<open>pattern.search\<close>: try every start position from left to right.\<close>

fun search :: "bool \<Rightarrow> regex \<Rightarrow> pos \<Rightarrow> bool" where
  "search ic r (b, []) = (ends ic r (b, []) \<noteq> [])"
| "search ic r (b, x # xs) = (ends ic r (b, x # xs) \<noteq> [] \<or> search ic r (b @ [x], xs))"

fun lits :: "string \<Rightarrow> regex" where
  "lits [] = Eps"
| "lits [c] = Lit c"
| "lits (c # cs) = Seq (Lit c) (lits cs)"

fun alts :: "regex list \<Rightarrow> regex" where
  "alts [] = Eps"
| "alts [r] = r"
| "alts (r # rs) = Alt r (alts rs)"

fun seqs :: "regex list \<Rightarrow> regex" where
  "seqs [] = Eps"
| "seqs [r] = r"
| "seqs (r # rs) = Seq r (seqs rs)"

definition NON_READONLY_PATTERNS :: "regex list" where
  "NON_READONLY_PATTERNS =
    [seqs [WordBoundary,
           alts (map lits [''INSERT'', ''UPDATE'', ''DELETE'', ''CREATE'', ''DROP'', ''ALTER'',
                           ''MERGE'', ''TRUNCATE'']),
           WordBoundary],
     seqs [WordBoundary, lits ''GRANT'', WordBoundary, Star Dot, WordBoundary, lits ''TO'',
           WordBoundary],
     seqs [WordBoundary, lits ''REVOKE'', WordBoundary, Star Dot, WordBoundary, lits ''FROM'',
           WordBoundary]]"

text \<open>The loop of \<^verbatim>\<open>is_readonly_query\<close> over the patterns.\<close>

fun no_pattern_matches :: "regex list \<Rightarrow> string \<Rightarrow> bool" where
  "no_pattern_matches [] query = True"
| "no_pattern_matches (pattern # rest) query =
     (if search True pattern ([], query) then False else no_pattern_matches rest query)"

definition is_readonly_query :: "string \<Rightarrow> bool" where
  "is_readonly_query query = no_pattern_matches NON_READONLY_PATTERNS query"

section \<open>The warehouse client\<close>

text \<open>
  What the program uses of \<^verbatim>\<open>google.cloud.bigquery\<close>. A call either returns or raises.
  List items are represented by their identifiers; \<^verbatim>\<open>client.dataset(id)\<close> only builds a
  reference and is not modelled as a call.
\<close>

record schema_field =
  field_name :: string
  field_type :: string
  is_nullable :: bool
  field_description :: "string option"

record table_info =
  table_type :: string
  table_description :: "string option"
  table_schema :: "schema_field list"

text \<open>
  The row iterator that \<^verbatim>\<open>query_job.result\<close> returns: its schema, and what each step of
  the iteration does (yield a row, or raise).
\<close>

record 'v row_iterator =
  schema :: "schema_field list"
  iter_rows :: "(exn + 'v list) list"

record 'v query_job =
  total_bytes_processed :: "int option"
  result :: "nat \<Rightarrow> exn + 'v row_iterator"

record 'v bq_client =
  project :: string
  client_list_datasets :: "exn + string list"
  get_dataset :: "string \<Rightarrow> exn + string option"
  client_list_tables :: "string \<Rightarrow> exn + string list"
  get_table :: "string \<Rightarrow> string \<Rightarrow> exn + table_info"
  query :: "string \<Rightarrow> bool \<Rightarrow> exn + 'v query_job"

text \<open>The calls that \<^verbatim>\<open>run_query\<close> makes to the service, in order.\<close>

datatype service_call = QueryCall string bool | ResultCall nat

section \<open>Printing and termination of the process\<close>

datatype stream = Stdout | Stderr

text \<open>One \<^verbatim>\<open>print\<close> call: the stream and the text.\<close>

type_synonym printed = "(stream \<times> string) list"

text \<open>
  \<^verbatim>\<open>sys.exit(n)\<close>, or an exception that no handler catches. The printed lines of a run are
  the program's own \<^verbatim>\<open>print\<close> calls; the traceback that the interpreter writes for an
  escaping exception is not among them.
\<close>

datatype abort = SysExit int | Uncaught exn


text \<open>
  The handler \<^verbatim>\<open>except GoogleCloudError as e: print(f"...: {e}"); sys.exit(1)\<close> of the
  session bootstrap and of the three listing commands; another exception escapes.
\<close>

fun fatal :: "string \<Rightarrow> exn \<Rightarrow> printed \<times> (abort + 'a)" where
  "fatal msg (GoogleCloudError e) = ([(Stdout, msg @ e)], Inl (SysExit 1))"
| "fatal msg (OtherError e) = ([], Inl (Uncaught (OtherError e)))"

section \<open>The tool\<close>

record 'v BigQueryTool =
  client :: "'v bq_client"
  project_id :: string

text \<open>\<^verbatim>\<open>BigQueryTool.__init__\<close>; the first parameter is \<^verbatim>\<open>bigquery.Client\<close>.\<close>

definition BigQueryTool_init ::
  "(string option \<Rightarrow> exn + 'v bq_client) \<Rightarrow> string option \<Rightarrow> printed \<times> (abort + 'v BigQueryTool)" where
  "BigQueryTool_init Client project_arg =
     (case Client project_arg of
        Inl e \<Rightarrow> fatal ''Error connecting to BigQuery: '' e
      | Inr c \<Rightarrow>
          let pid = (case project_arg of
                       None \<Rightarrow> project c
                     | Some p \<Rightarrow> if p \<noteq> [] then p else project c)
          in ([(Stderr, ''Connected to BigQuery project: '' @ pid)],
              Inr \<lparr>client = c, project_id = pid\<rparr>))"

text \<open>
  The loop of \<^verbatim>\<open>list_datasets\<close>. Its inner \<^verbatim>\<open>try\<close> catches every exception of
  \<^verbatim>\<open>get_dataset\<close>.
\<close>

fun dataset_rows :: "'v bq_client \<Rightarrow> string list \<Rightarrow> 'v row_dict list \<Rightarrow> 'v row_dict list" where
  "dataset_rows c [] res = res"
| "dataset_rows c (dataset_id # rest) res =
     (let description = (case get_dataset c dataset_id of
                           Inr d \<Rightarrow> or_empty d
                         | Inl e \<Rightarrow> '''')
      in dataset_rows c rest
           (res @ [[(''Dataset ID'', Text dataset_id), (''Description'', Text description)]]))"

definition list_datasets :: "'v BigQueryTool \<Rightarrow> printed \<times> (abort + 'v row_dict list)" where
  "list_datasets self =
     (case client_list_datasets (client self) of
        Inl e \<Rightarrow> fatal ''Error listing datasets: '' e
      | Inr datasets \<Rightarrow>
          if datasets = []
          then ([(Stdout, ''No datasets found in project '' @ project_id self)], Inr [])
          else ([], Inr (dataset_rows (client self) datasets [])))"

text \<open>The loop of \<^verbatim>\<open>list_tables\<close>; \<^verbatim>\<open>get_table\<close> is called with no handler of its own.\<close>

fun table_rows ::
  "'v bq_client \<Rightarrow> string \<Rightarrow> string list \<Rightarrow> 'v row_dict list \<Rightarrow> exn + 'v row_dict list" where
  "table_rows c dataset_id [] res = Inr res"
| "table_rows c dataset_id (table_id # rest) res =
     (case get_table c dataset_id table_id of
        Inl e \<Rightarrow> Inl e
      | Inr full_table \<Rightarrow>
          table_rows c dataset_id rest
            (res @ [[(''Table ID'', Text table_id),
                     (''Type'', Text (if table_type full_table = ''VIEW'' then ''VIEW'' else ''TABLE'')),
                     (''Description'', Text (or_empty (table_description full_table)))]]))"

definition list_tables :: "'v BigQueryTool \<Rightarrow> string \<Rightarrow> printed \<times> (abort + 'v row_dict list)" where
  "list_tables self dataset_id =
     (case client_list_tables (client self) dataset_id of
        Inl e \<Rightarrow> fatal (''Error listing tables in dataset '' @ dataset_id @ '': '') e
      | Inr tables \<Rightarrow>
          if tables = []
          then ([(Stdout, ''No tables found in dataset '' @ dataset_id)], Inr [])
          else (case table_rows (client self) dataset_id tables [] of
                  Inl e \<Rightarrow> fatal (''Error listing tables in dataset '' @ dataset_id @ '': '') e
                | Inr res \<Rightarrow> ([], Inr res)))"

definition schema_row :: "schema_field \<Rightarrow> 'v row_dict" where
  "schema_row field =
     [(''Column Name'', Text (field_name field)),
      (''Data Type'', Text (field_type field)),
      (''Nullable'', Text (if is_nullable field then ''YES'' else ''NO'')),
      (''Description'', Text (or_empty (field_description field)))]"

definition get_schema ::
  "'v BigQueryTool \<Rightarrow> string \<Rightarrow> string \<Rightarrow> printed \<times> (abort + 'v row_dict list)" where
  "get_schema self dataset_id table_id =
     (case get_table (client self) dataset_id table_id of
        Inl e \<Rightarrow> fatal (''Error getting schema for '' @ dataset_id @ ''.'' @ table_id @ '': '') e
      | Inr table \<Rightarrow> ([], Inr (map schema_row (table_schema table))))"

text \<open>
  The inner loop of \<^verbatim>\<open>run_query\<close> over \<^verbatim>\<open>enumerate(field_names)\<close>; \<^verbatim>\<open>row[i]\<close> raises
  \<^verbatim>\<open>IndexError\<close> beyond the end of the row.
\<close>

fun fill_row :: "'v list \<Rightarrow> (nat \<times> string) list \<Rightarrow> 'v row_dict \<Rightarrow> exn + 'v row_dict" where
  "fill_row row [] row_dict = Inr row_dict"
| "fill_row row ((i, fname) # rest) row_dict =
     (if i < length row then fill_row row rest (dict_set row_dict fname (Scalar (row ! i)))
      else Inl (OtherError ''tuple index out of range''))"

text \<open>The outer loop over the iterator, which stops once five rows have been appended.\<close>

fun collect_rows ::
  "string list \<Rightarrow> (exn + 'v list) list \<Rightarrow> 'v row_dict list \<Rightarrow> nat \<Rightarrow> exn + 'v row_dict list" where
  "collect_rows field_names [] result_list row_count = Inr result_list"
| "collect_rows field_names (Inl e # steps) result_list row_count = Inl e"
| "collect_rows field_names (Inr row # steps) result_list row_count =
     (case fill_row row (enumerate 0 field_names) [] of
        Inl e \<Rightarrow> Inl e
      | Inr row_dict \<Rightarrow>
          if row_count + 1 \<ge> 5 then Inr (result_list @ [row_dict])
          else collect_rows field_names steps (result_list @ [row_dict]) (row_count + 1))"

text \<open>The handler \<^verbatim>\<open>except GoogleCloudError as e: return f"Error executing query: {e}"\<close>.\<close>

fun query_error :: "exn \<Rightarrow> exn + 'v data" where
  "query_error (GoogleCloudError e) = Inr (Message (''Error executing query: '' @ e))"
| "query_error (OtherError e) = Inl (OtherError e)"

text \<open>
  \<^verbatim>\<open>run_query\<close>, with the list of service calls it has made. The result is the returned
  value, or the exception that escapes.
\<close>

definition run_query ::
  "'v BigQueryTool \<Rightarrow> string \<Rightarrow> bool \<Rightarrow> service_call list \<times> (exn + 'v data)" where
  "run_query self q dry_run =
     (if \<not> is_readonly_query q
      then ([], Inr (Message
        ''Error: Only read-only queries are allowed. Data modification operations detected.''))
      else case query (client self) q dry_run of
        Inl e \<Rightarrow> ([QueryCall q dry_run], query_error e)
      | Inr query_job \<Rightarrow>
          if dry_run
          then ([QueryCall q dry_run],
                Inr (Message (''Query validation successful. Estimated bytes processed: ''
                              @ str_opt_int (total_bytes_processed query_job) @ '' bytes.'')))
          else case result query_job 5 of
            Inl e \<Rightarrow> ([QueryCall q dry_run, ResultCall 5], query_error e)
          | Inr results \<Rightarrow>
              ([QueryCall q dry_run, ResultCall 5],
               case collect_rows (map field_name (schema results)) (iter_rows results) [] 0 of
                 Inl e \<Rightarrow> query_error e
               | Inr result_list \<Rightarrow> Inr (Table result_list)))"

section \<open>The output formatter\<close>

text \<open>
  \<^verbatim>\<open>format_output(data, format_type="table")\<close>. The first parameter is \<^verbatim>\<open>tabulate\<close> with
  \<^verbatim>\<open>headers="keys", tablefmt="pipe"\<close>, the second is \<^verbatim>\<open>str\<close> on a list of rows.
\<close>

definition format_output ::
  "('v row_dict list \<Rightarrow> string) \<Rightarrow> ('v row_dict list \<Rightarrow> string) \<Rightarrow> 'v data \<Rightarrow> string \<Rightarrow> string" where
  "format_output tabulate str_of data format_type =
     (if \<not> truthy data then ''No data to display.''
      else case data of
        Message s \<Rightarrow> s
      | Table rs \<Rightarrow> if format_type = ''table'' then tabulate rs else str_of rs)"

section \<open>The command-line dispatcher\<close>

text \<open>The namespace that \<^verbatim>\<open>parse_args\<close> returns: the subcommand with its arguments.\<close>

datatype args =
    NoCommand
  | ListDatasets "string option"
  | ListTables string "string option"
  | GetSchema string string "string option"
  | RunQuery string "string option" bool

text \<open>
  The outcome of \<^verbatim>\<open>parser.parse_args()\<close>. The parser is \<^verbatim>\<open>argparse\<close>'s: on a command line it
  cannot parse it prints the usage and an error to the diagnostic stream and exits with
  status 2; on \<^verbatim>\<open>-h\<close> or \<^verbatim>\<open>--help\<close> it prints the help to standard output and exits with
  status 0; otherwise it returns the namespace.
\<close>

datatype parsed = UsageError string | HelpRequested string | Namespace args

fun args_project :: "args \<Rightarrow> string option" where
  "args_project NoCommand = None"
| "args_project (ListDatasets p) = p"
| "args_project (ListTables d p) = p"
| "args_project (GetSchema d t p) = p"
| "args_project (RunQuery q p dry) = p"

text \<open>
  What the script takes from outside: whether its imports succeed; the parser that lines
  256 to 300 configure, as a function from the command line to the outcome of
  \<^verbatim>\<open>parse_args\<close>; the value of \<^verbatim>\<open>GOOGLE_APPLICATION_CREDENTIALS\<close> if set, after
  \<^verbatim>\<open>load_dotenv\<close>; the client constructor; the two rendering functions and the help text.
\<close>

record 'v world =
  imports_ok :: bool
  parse_args :: "string list \<Rightarrow> parsed"
  environ_credentials :: "string option"
  Client :: "string option \<Rightarrow> exn + 'v bq_client"
  tabulate :: "'v row_dict list \<Rightarrow> string"
  str_of_rows :: "'v row_dict list \<Rightarrow> string"
  help_text :: string

text \<open>The check of the credential variable in \<^verbatim>\<open>main\<close>.\<close>

fun check_credentials :: "string option \<Rightarrow> printed" where
  "check_credentials None =
     [(Stdout, ''Warning: GOOGLE_APPLICATION_CREDENTIALS environment variable is not set.''),
      (Stdout, ''Set it in your .env file to the path of your service account key file:''),
      (Stdout, ''GOOGLE_APPLICATION_CREDENTIALS=/path/to/your-key-file.json''),
      (Stdout, ''Continuing with default authentication...'')]"
| "check_credentials (Some path) = [(Stderr, ''Using service account key: '' @ path)]"

text \<open>\<^verbatim>\<open>print(format_output(result))\<close> after a handler that returned.\<close>

definition print_result :: "'v world \<Rightarrow> 'v data \<Rightarrow> printed" where
  "print_result w d = [(Stdout, format_output (tabulate w) (str_of_rows w) d ''table'')]"

fun print_rows ::
  "'v world \<Rightarrow> printed \<times> (abort + 'v row_dict list) \<Rightarrow> printed \<times> (abort + unit)" where
  "print_rows w (out, Inl a) = (out, Inl a)"
| "print_rows w (out, Inr rs) = (out @ print_result w (Table rs), Inr ())"

text \<open>The \<^verbatim>\<open>if\<close>/\<^verbatim>\<open>elif\<close> chain that runs the requested command.\<close>

fun dispatch :: "'v world \<Rightarrow> 'v BigQueryTool \<Rightarrow> args \<Rightarrow> printed \<times> (abort + unit)" where
  "dispatch w bq NoCommand = ([], Inr ())"
| "dispatch w bq (ListDatasets p) = print_rows w (list_datasets bq)"
| "dispatch w bq (ListTables dataset_id p) = print_rows w (list_tables bq dataset_id)"
| "dispatch w bq (GetSchema dataset_id table_id p) = print_rows w (get_schema bq dataset_id table_id)"
| "dispatch w bq (RunQuery q p dry_run) =
     (case snd (run_query bq q dry_run) of
        Inl e \<Rightarrow> ([], Inl (Uncaught e))
      | Inr d \<Rightarrow> (print_result w d, Inr ()))"

text \<open>\<^verbatim>\<open>main\<close> after \<^verbatim>\<open>parse_args\<close> has returned the namespace \<open>a\<close>.\<close>

definition run_command :: "'v world \<Rightarrow> args \<Rightarrow> printed \<times> (abort + unit)" where
  "run_command w a =
     (if a = NoCommand then ([(Stdout, help_text w)], Inl (SysExit 1))
      else case BigQueryTool_init (Client w) (args_project a) of
        (out, Inl ab) \<Rightarrow> (check_credentials (environ_credentials w) @ out, Inl ab)
      | (out, Inr bq) \<Rightarrow>
          (case dispatch w bq a of
             (out', r) \<Rightarrow> (check_credentials (environ_credentials w) @ out @ out', r)))"

text \<open>\<^verbatim>\<open>main\<close> on the command line \<open>argv\<close>.\<close>

definition main :: "'v world \<Rightarrow> string list \<Rightarrow> printed \<times> (abort + unit)" where
  "main w argv =
     (case parse_args w argv of
        UsageError msg \<Rightarrow> ([(Stderr, msg)], Inl (SysExit 2))
      | HelpRequested h \<Rightarrow> ([(Stdout, h)], Inl (SysExit 0))
      | Namespace a \<Rightarrow> run_command w a)"

text \<open>
  The script: the guarded imports at its head, then \<^verbatim>\<open>main\<close>.
\<close>

definition script :: "'v world \<Rightarrow> string list \<Rightarrow> printed \<times> (abort + unit)" where
  "script w argv =
     (if \<not> imports_ok w
      then ([(Stdout, ''Required dependencies not found. Please install them with:''),
             (Stdout, ''pip install google-cloud-bigquery tabulate python-dotenv'')],
            Inl (SysExit 1))
      else main w argv)"

section \<open>Notions of the specification\<close>

text \<open>The keywords that the specification lists for the first pattern.\<close>

definition mutating_keywords :: "string list" where
  "mutating_keywords =
     [''INSERT'', ''UPDATE'', ''DELETE'', ''CREATE'', ''DROP'', ''ALTER'', ''MERGE'', ''TRUNCATE'']"

text \<open>Equality of two strings up to case.\<close>

definition ci_equal :: "string \<Rightarrow> string \<Rightarrow> bool" where
  "ci_equal u w = (map lower u = map lower w)"

text \<open>
  A stretch of text stands as a whole word between \<open>l\<close> and \<open>r\<close> when no word character
  touches it on either side.
\<close>

definition delimited :: "string \<Rightarrow> string \<Rightarrow> bool" where
  "delimited l r = (\<not> (l \<noteq> [] \<and> is_word (last l)) \<and> \<not> (r \<noteq> [] \<and> is_word (hd r)))"

text \<open>The query contains the word \<open>w\<close>, in any case, as a whole word.\<close>

definition whole_word_occurrence :: "string \<Rightarrow> string \<Rightarrow> bool" where
  "whole_word_occurrence w q =
     (\<exists>pre mid post. q = pre @ mid @ post \<and> ci_equal mid w \<and> delimited pre post)"

text \<open>
  The query contains \<open>w1\<close> as a whole word and, later on the same line, \<open>w2\<close> as a whole
  word (both in any case): the span \<^verbatim>\<open>GRANT ... TO\<close> or \<^verbatim>\<open>REVOKE ... FROM\<close>.
\<close>

definition span_occurrence :: "string \<Rightarrow> string \<Rightarrow> string \<Rightarrow> bool" where
  "span_occurrence w1 w2 q =
     (\<exists>pre m1 gap m2 post.
        q = pre @ m1 @ gap @ m2 @ post \<and> ci_equal m1 w1 \<and> ci_equal m2 w2
        \<and> CHR 0x0A \<notin> set gap
        \<and> delimited pre (gap @ m2 @ post) \<and> delimited (pre @ m1 @ gap) post)"

text \<open>A word that begins and ends with a word character.\<close>

definition word_ended :: "string \<Rightarrow> bool" where
  "word_ended w = (w \<noteq> [] \<and> is_word (hd w) \<and> is_word (last w))"

text \<open>The two shapes of pattern in \<open>NON_READONLY_PATTERNS\<close>.\<close>

definition word_pattern :: "string list \<Rightarrow> regex" where
  "word_pattern ws = seqs [WordBoundary, alts (map lits ws), WordBoundary]"

definition span_pattern :: "string \<Rightarrow> string \<Rightarrow> regex" where
  "span_pattern w1 w2 =
     seqs [WordBoundary, lits w1, WordBoundary, Star Dot, WordBoundary, lits w2, WordBoundary]"

text \<open>
  The row that \<^verbatim>\<open>list_datasets\<close> produces for one dataset: the description is empty when
  the descriptor has none or cannot be fetched.
\<close>

definition dataset_row :: "'v bq_client \<Rightarrow> string \<Rightarrow> 'v row_dict" where
  "dataset_row c dataset_id =
     [(''Dataset ID'', Text dataset_id),
      (''Description'', Text (case get_dataset c dataset_id of
                                Inr (Some d) \<Rightarrow> d
                              | Inr None \<Rightarrow> ''''
                              | Inl e \<Rightarrow> ''''))]"

text \<open>
  The decimal numeral of an integer: digits only, no leading zero, a minus sign before the
  numeral of the absolute value of a negative number.
\<close>

definition decimal_value :: "string \<Rightarrow> nat" where
  "decimal_value s = foldl (\<lambda>acc c. 10 * acc + (of_char c - 48)) 0 s"

definition is_numeral :: "nat \<Rightarrow> string \<Rightarrow> bool" where
  "is_numeral n s =
     (s \<noteq> [] \<and> list_all (\<lambda>c. 48 \<le> (of_char c :: nat) \<and> (of_char c :: nat) \<le> 57) s
      \<and> (hd s = CHR ''0'' \<longrightarrow> s = ''0'') \<and> decimal_value s = n)"

definition is_decimal :: "int \<Rightarrow> string \<Rightarrow> bool" where
  "is_decimal i s =
     (if i < 0 then s \<noteq> [] \<and> hd s = CHR ''-'' \<and> is_numeral (nat (- i)) (tl s)
      else is_numeral (nat i) s)"






section \<open>Sample values\<close>

text \<open>Concrete clients and environments at which the theorems below are instantiated.\<close>

definition render_stub :: "nat row_dict list \<Rightarrow> string" where
  "render_stub rs = ''| table |''"

definition sample_field :: "string \<Rightarrow> schema_field" where
  "sample_field n =
     \<lparr>field_name = n, field_type = ''INTEGER'', is_nullable = True, field_description = None\<rparr>"

definition sample_results :: "nat row_iterator" where
  "sample_results =
     \<lparr>schema = [sample_field ''a'', sample_field ''b''],
      iter_rows = map Inr [[1, 2], [3, 4], [5, 6], [7, 8], [9, 10], [11, 12], [13, 14]]\<rparr>"

definition sample_job :: "nat query_job" where
  "sample_job = \<lparr>total_bytes_processed = Some 2048, result = (\<lambda>n. Inr sample_results)\<rparr>"

definition sample_table :: table_info where
  "sample_table =
     \<lparr>table_type = ''VIEW'', table_description = None, table_schema = [sample_field ''a'']\<rparr>"

text \<open>A client on which the descriptor of the first listed dataset and table cannot be fetched.\<close>

definition sample_client :: "nat bq_client" where
  "sample_client =
     \<lparr>project = ''default-project'',
      client_list_datasets = Inr [''d1'', ''d2''],
      get_dataset = (\<lambda>i. if i = ''d1'' then Inl (GoogleCloudError ''denied'')
                          else Inr (Some ''second'')),
      client_list_tables = (\<lambda>d. Inr [''t1'', ''t2'']),
      get_table = (\<lambda>d t. if t = ''t1'' then Inl (GoogleCloudError ''denied'')
                           else Inr sample_table),
      query = (\<lambda>q dry. Inr sample_job)\<rparr>"

definition sample_tool :: "nat BigQueryTool" where
  "sample_tool = \<lparr>client = sample_client, project_id = ''default-project''\<rparr>"

text \<open>An environment without the credential variable, and one with it.\<close>

text \<open>
  A stand-in for the parser on a few command lines; the second and the last line are
  what \<^verbatim>\<open>argparse\<close> does when the dataset is missing and when help is asked for.
\<close>

fun sample_parse_args :: "string list \<Rightarrow> parsed" where
  "sample_parse_args [] = Namespace NoCommand"
| "sample_parse_args [c] =
     (if c = ''list-datasets'' then Namespace (ListDatasets None)
      else if c = ''list-tables''
        then UsageError ''error: the following arguments are required: dataset_id''
      else if c = ''--help'' then HelpRequested ''usage''
      else UsageError ''error: invalid arguments'')"
| "sample_parse_args [c, x] =
     (if c = ''list-tables'' then Namespace (ListTables x None)
      else if c = ''run-query'' then Namespace (RunQuery x None False)
      else UsageError ''error: invalid arguments'')"
| "sample_parse_args [c, x, y] =
     (if c = ''get-schema'' then Namespace (GetSchema x y None)
      else if c = ''run-query'' \<and> y = ''--dry-run'' then Namespace (RunQuery x None True)
      else UsageError ''error: invalid arguments'')"
| "sample_parse_args (c # x # y # z # rest) =
     (if c = ''list-datasets'' \<and> x = ''--project'' \<and> z = ''--'' then Namespace (ListDatasets (Some y))
      else UsageError ''error: invalid arguments'')"

definition sample_world :: "nat world" where
  "sample_world =
     \<lparr>imports_ok = True, parse_args = sample_parse_args, environ_credentials = None, Client = (\<lambda>p. Inr sample_client), tabulate = render_stub,
      str_of_rows = render_stub, help_text = ''usage''\<rparr>"

definition sample_world_key :: "nat world" where
  "sample_world_key = sample_world\<lparr>environ_credentials := Some ''key.json''\<rparr>"



text \<open>A client on which the submission of a query meets a service error.\<close>

definition rejecting_client :: "nat bq_client" where
  "rejecting_client = sample_client\<lparr>query := (\<lambda>q dry. Inl (GoogleCloudError ''Syntax error''))\<rparr>"

definition rejecting_tool :: "nat BigQueryTool" where
  "rejecting_tool = \<lparr>client = rejecting_client, project_id = ''default-project''\<rparr>"

text \<open>
  A client constructor that keeps the project it is given and falls back to a default
  project when it is given none.
\<close>

definition keeping_Client :: "string option \<Rightarrow> exn + nat bq_client" where
  "keeping_Client p =
     Inr (sample_client\<lparr>project := (case p of None \<Rightarrow> ''default-project'' | Some s \<Rightarrow> s)\<rparr>)"

section \<open>Properties of the formatter\<close>

text \<open>
  C5, as stated: every string passes through \<^verbatim>\<open>format_output\<close> unchanged. This fails for
  the empty string, which the test \<^verbatim>\<open>if not data\<close> catches first.
\<close>

theorem format_output_empty_string_counterexample:
  "format_output render_stub render_stub (Message '''') ''table'' \<noteq> ''''"
  by (simp add: format_output_def)

text \<open>
  C5, amended: every non-empty string passes through unchanged, whatever the format type;
  the empty sequence of rows and the empty string both give \<^verbatim>\<open>No data to display.\<close>
\<close>

theorem format_output_passthrough:
  "(s \<noteq> [] \<longrightarrow> format_output tabulate_fn str_of (Message s) format_type = s)
   \<and> format_output tabulate_fn str_of (Table []) format_type = ''No data to display.''
   \<and> format_output tabulate_fn str_of (Message '''') format_type = ''No data to display.''"
  by (simp add: format_output_def)

theorem format_output_passthrough_witness:
  "''Error executing query: x'' \<noteq> []
   \<and> format_output render_stub render_stub (Message ''Error executing query: x'') ''table''
     = ''Error executing query: x''
   \<and> format_output render_stub render_stub (Table []) ''table'' = ''No data to display.''"
  using format_output_passthrough [of "''Error executing query: x''" render_stub render_stub "''table''"]
  by simp

section \<open>The safety filter\<close>

subsection \<open>What the matcher computes\<close>

lemma ends_Lit_iff:
  "p \<in> set (ends True (Lit c) (b, a)) \<longleftrightarrow> (\<exists>x. a = x # snd p \<and> fst p = b @ [x] \<and> lower x = lower c)"
  by (cases a; cases p) (auto simp: char_eq_def)

lemma ends_Seq_iff:
  "p \<in> set (ends ic (Seq r s) st) \<longleftrightarrow> (\<exists>m \<in> set (ends ic r st). p \<in> set (ends ic s m))"
  by (cases st) auto

lemma ends_lits_iff:
  "p \<in> set (ends True (lits w) (b, a)) \<longleftrightarrow> (\<exists>m. a = m @ snd p \<and> fst p = b @ m \<and> ci_equal m w)"
proof (induction w arbitrary: b a rule: lits.induct)
  case 1
  show ?case by (cases p) (auto simp: ci_equal_def)
next
  case (2 c)
  show ?case
    unfolding lits.simps ends_Lit_iff
    by (auto simp: ci_equal_def)
next
  case (3 c d ds)
  have "p \<in> set (ends True (lits (c # d # ds)) (b, a))
        \<longleftrightarrow> (\<exists>x xs. a = x # xs \<and> lower x = lower c \<and> p \<in> set (ends True (lits (d # ds)) (b @ [x], xs)))"
    by (cases a) (auto simp: char_eq_def)
  also have "\<dots> \<longleftrightarrow> (\<exists>x xs. a = x # xs \<and> lower x = lower c
                        \<and> (\<exists>m. xs = m @ snd p \<and> fst p = (b @ [x]) @ m \<and> ci_equal m (d # ds)))"
    using 3 by simp
  also have "\<dots> \<longleftrightarrow> (\<exists>m. a = m @ snd p \<and> fst p = b @ m \<and> ci_equal m (c # d # ds))"
  proof
    assume "\<exists>x xs. a = x # xs \<and> lower x = lower c
              \<and> (\<exists>m. xs = m @ snd p \<and> fst p = (b @ [x]) @ m \<and> ci_equal m (d # ds))"
    then obtain x xs m where "a = x # xs" "lower x = lower c" "xs = m @ snd p"
      "fst p = (b @ [x]) @ m" "ci_equal m (d # ds)" by blast
    then have "a = (x # m) @ snd p \<and> fst p = b @ (x # m) \<and> ci_equal (x # m) (c # d # ds)"
      by (simp add: ci_equal_def)
    then show "\<exists>m. a = m @ snd p \<and> fst p = b @ m \<and> ci_equal m (c # d # ds)" by blast
  next
    assume "\<exists>m. a = m @ snd p \<and> fst p = b @ m \<and> ci_equal m (c # d # ds)"
    then obtain m where m: "a = m @ snd p" "fst p = b @ m" "ci_equal m (c # d # ds)" by blast
    then obtain x m' where "m = x # m'" by (cases m) (auto simp: ci_equal_def)
    with m show "\<exists>x xs. a = x # xs \<and> lower x = lower c
              \<and> (\<exists>m. xs = m @ snd p \<and> fst p = (b @ [x]) @ m \<and> ci_equal m (d # ds))"
      by (auto simp: ci_equal_def)
  qed
  finally show ?case .
qed

lemma ends_Star_Dot_iff:
  "p \<in> set (ends ic (Star Dot) (b, a)) \<longleftrightarrow> (\<exists>m. a = m @ snd p \<and> fst p = b @ m \<and> CHR 0x0A \<notin> set m)"
proof (induction a arbitrary: b)
  case Nil
  show ?case by (cases p) auto
next
  case (Cons x xs)
  have step: "p \<in> set (ends ic (Star Dot) (b, x # xs))
        \<longleftrightarrow> (x \<noteq> CHR 0x0A \<and> p \<in> set (ends ic (Star Dot) (b @ [x], xs))) \<or> p = (b, x # xs)"
    by auto
  show ?case
  proof
    assume "p \<in> set (ends ic (Star Dot) (b, x # xs))"
    with step consider "x \<noteq> CHR 0x0A" "p \<in> set (ends ic (Star Dot) (b @ [x], xs))" | "p = (b, x # xs)"
      by blast
    then show "\<exists>m. x # xs = m @ snd p \<and> fst p = b @ m \<and> CHR 0x0A \<notin> set m"
    proof cases
      case 1
      then obtain m where "xs = m @ snd p" "fst p = (b @ [x]) @ m" "CHR 0x0A \<notin> set m"
        using Cons by blast
      with 1 have "x # xs = (x # m) @ snd p \<and> fst p = b @ (x # m) \<and> CHR 0x0A \<notin> set (x # m)"
        by simp
      then show ?thesis by blast
    next
      case 2
      then have "x # xs = [] @ snd p \<and> fst p = b @ [] \<and> CHR 0x0A \<notin> set []" by simp
      then show ?thesis by blast
    qed
  next
    assume "\<exists>m. x # xs = m @ snd p \<and> fst p = b @ m \<and> CHR 0x0A \<notin> set m"
    then obtain m where m: "x # xs = m @ snd p" "fst p = b @ m" "CHR 0x0A \<notin> set m" by blast
    show "p \<in> set (ends ic (Star Dot) (b, x # xs))"
    proof (cases m)
      case Nil
      with m have "p = (b, x # xs)" by (cases p) simp
      with step show ?thesis by blast
    next
      case (Cons y ys)
      with m have "y = x" "xs = ys @ snd p" "fst p = (b @ [x]) @ ys" "CHR 0x0A \<notin> set ys" "x \<noteq> CHR 0x0A"
        by auto
      then have "x \<noteq> CHR 0x0A \<and> p \<in> set (ends ic (Star Dot) (b @ [x], xs))"
        using Cons.IH by blast
      with step show ?thesis by blast
    qed
  qed
qed

lemma ends_WordBoundary_iff:
  "p \<in> set (ends ic WordBoundary st) \<longleftrightarrow> p = st \<and> at_boundary st"
  by (cases st) auto

lemma ends_alts_lits_iff:
  "ws \<noteq> [] \<Longrightarrow> p \<in> set (ends True (alts (map lits ws)) st)
     \<longleftrightarrow> (\<exists>w \<in> set ws. p \<in> set (ends True (lits w) st))"
proof (induction ws rule: induct_list012)
  case 1 then show ?case by simp
next
  case (2 w) show ?case by simp
next
  case (3 w v vs)
  then show ?case by (cases st) auto
qed

lemma search_iff:
  "search ic r (b, a) \<longleftrightarrow> (\<exists>m rest. a = m @ rest \<and> ends ic r (b @ m, rest) \<noteq> [])"
proof (induction a arbitrary: b)
  case Nil
  show ?case by simp
next
  case (Cons x xs)
  show ?case
  proof
    assume "search ic r (b, x # xs)"
    then consider "ends ic r (b, x # xs) \<noteq> []" | "search ic r (b @ [x], xs)" by auto
    then show "\<exists>m rest. x # xs = m @ rest \<and> ends ic r (b @ m, rest) \<noteq> []"
    proof cases
      case 1
      then have "x # xs = [] @ (x # xs) \<and> ends ic r (b @ [], x # xs) \<noteq> []" by simp
      then show ?thesis by blast
    next
      case 2
      then obtain m rest where "xs = m @ rest" "ends ic r ((b @ [x]) @ m, rest) \<noteq> []"
        using Cons by blast
      then have "x # xs = (x # m) @ rest \<and> ends ic r (b @ (x # m), rest) \<noteq> []" by simp
      then show ?thesis by blast
    qed
  next
    assume "\<exists>m rest. x # xs = m @ rest \<and> ends ic r (b @ m, rest) \<noteq> []"
    then obtain m rest where m: "x # xs = m @ rest" "ends ic r (b @ m, rest) \<noteq> []" by blast
    show "search ic r (b, x # xs)"
    proof (cases m)
      case Nil
      with m have "ends ic r (b, x # xs) \<noteq> []" by simp
      then show ?thesis by simp
    next
      case (Cons y ys)
      with m have "xs = ys @ rest" "ends ic r ((b @ [x]) @ ys, rest) \<noteq> []" by auto
      then have "search ic r (b @ [x], xs)" using Cons.IH by blast
      then show ?thesis by simp
    qed
  qed
qed

lemma ends_lits_pos_iff:
  "p \<in> set (ends True (lits w) st)
     \<longleftrightarrow> (\<exists>m. snd st = m @ snd p \<and> fst p = fst st @ m \<and> ci_equal m w)"
  by (cases st) (simp only: ends_lits_iff fst_conv snd_conv)

lemma ends_Star_Dot_pos_iff:
  "p \<in> set (ends ic (Star Dot) st)
     \<longleftrightarrow> (\<exists>m. snd st = m @ snd p \<and> fst p = fst st @ m \<and> CHR 0x0A \<notin> set m)"
  by (cases st) (simp only: ends_Star_Dot_iff fst_conv snd_conv)

lemma of_char_lt_256: "(of_char c :: nat) < 256"
  by (cases c) (simp add: of_char_def)

lemma is_word_upper_ascii:
  assumes "65 \<le> (of_char c :: nat)" "(of_char c :: nat) \<le> 90"
  shows "is_word c \<and> is_word (char_of (of_char c + 32 :: nat))"
proof -
  let ?n = "of_char c :: nat"
  have "?n + 32 < 256" using assms by simp
  then have e: "(of_char (char_of (?n + 32)) :: nat) = ?n + 32"
    by (simp add: of_char_of)
  have "97 \<le> ?n + 32 \<and> ?n + 32 \<le> 122" using assms by simp
  then have "is_word (char_of (?n + 32))"
    unfolding is_word_def Let_def e by blast
  moreover have "is_word c"
    unfolding is_word_def Let_def using assms by blast
  ultimately show ?thesis by simp
qed

lemma is_word_upper_latin1:
  assumes "192 \<le> (of_char c :: nat)" "(of_char c :: nat) \<le> 222" "(of_char c :: nat) \<noteq> 215"
  shows "is_word c \<and> is_word (char_of (of_char c + 32 :: nat))"
proof -
  let ?n = "of_char c :: nat"
  have "?n + 32 < 256" using assms by simp
  then have e: "(of_char (char_of (?n + 32)) :: nat) = ?n + 32"
    by (simp add: of_char_of)
  have "(216 \<le> ?n + 32 \<and> ?n + 32 \<le> 246) \<or> 248 \<le> ?n + 32" using assms by arith
  then have "is_word (char_of (?n + 32))"
    unfolding is_word_def Let_def e by blast
  moreover have "(192 \<le> ?n \<and> ?n \<le> 214) \<or> (216 \<le> ?n \<and> ?n \<le> 246)" using assms by arith
  then have "is_word c"
    unfolding is_word_def Let_def by blast
  ultimately show ?thesis by simp
qed

lemma is_word_lower: "is_word (lower c) = is_word c"
proof -
  let ?n = "of_char c :: nat"
  show ?thesis
  proof (cases "(65 \<le> ?n \<and> ?n \<le> 90) \<or> (192 \<le> ?n \<and> ?n \<le> 222 \<and> ?n \<noteq> 215)")
    case False
    then have "lower c = c" unfolding lower_def Let_def by (rule if_not_P)
    then show ?thesis by simp
  next
    case True
    then have l: "lower c = char_of (?n + 32)" unfolding lower_def Let_def by (rule if_P)
    from True have "is_word c \<and> is_word (char_of (?n + 32))"
      using is_word_upper_ascii [of c] is_word_upper_latin1 [of c] by blast
    then show ?thesis using l by simp
  qed
qed

lemma ci_equal_word_ends:
  assumes "ci_equal m w" "w \<noteq> []" "is_word (hd w)" "is_word (last w)"
  shows "m \<noteq> [] \<and> is_word (hd m) \<and> is_word (last m)"
proof -
  from assms(1) have eq: "map lower m = map lower w" by (simp add: ci_equal_def)
  then have "length m = length w" by (metis length_map)
  with assms(2) have ne: "m \<noteq> []" by auto
  have "lower (hd m) = lower (hd w)" using eq ne assms(2) by (metis hd_map)
  then have h: "is_word (hd m)" using assms(3) by (metis is_word_lower)
  have "lower (last m) = lower (last w)" using eq ne assms(2) by (metis last_map)
  then have "is_word (last m)" using assms(4) by (metis is_word_lower)
  with ne h show ?thesis by simp
qed

lemma at_boundary_before_word:
  "a \<noteq> [] \<Longrightarrow> is_word (hd a) \<Longrightarrow> at_boundary (b, a) \<longleftrightarrow> \<not> (b \<noteq> [] \<and> is_word (last b))"
  by (auto simp: at_boundary_def Let_def)

lemma at_boundary_after_word:
  "b \<noteq> [] \<Longrightarrow> is_word (last b) \<Longrightarrow> at_boundary (b, a) \<longleftrightarrow> \<not> (a \<noteq> [] \<and> is_word (hd a))"
  by (auto simp: at_boundary_def Let_def)

lemma is_word_ascii_letter:
  "is_word CHR ''A''" "is_word CHR ''C''" "is_word CHR ''D''" "is_word CHR ''E''"
  "is_word CHR ''F''" "is_word CHR ''G''" "is_word CHR ''I''" "is_word CHR ''M''"
  "is_word CHR ''O''" "is_word CHR ''P''" "is_word CHR ''R''" "is_word CHR ''T''"
  "is_word CHR ''U''"
  by (simp_all add: is_word_def)

lemma keyword_is_word:
  "w \<in> set mutating_keywords \<Longrightarrow> w \<noteq> [] \<and> is_word (hd w) \<and> is_word (last w)"
  by (auto simp: mutating_keywords_def is_word_ascii_letter)

lemma ends_word_pattern_mem:
  assumes "ws \<noteq> []"
  shows "p \<in> set (ends True (word_pattern ws) st)
    \<longleftrightarrow> at_boundary st \<and> at_boundary p
        \<and> (\<exists>w \<in> set ws. \<exists>m. snd st = m @ snd p \<and> fst p = fst st @ m \<and> ci_equal m w)"
proof -
  have "p \<in> set (ends True (word_pattern ws) st)
     \<longleftrightarrow> (\<exists>s1. s1 \<in> set (ends True WordBoundary st) \<and>
            (\<exists>s2. s2 \<in> set (ends True (alts (map lits ws)) s1) \<and> p \<in> set (ends True WordBoundary s2)))"
    by (simp only: word_pattern_def seqs.simps ends_Seq_iff Bex_def)
  also have "\<dots> \<longleftrightarrow> (at_boundary st
         \<and> (\<exists>s2. s2 \<in> set (ends True (alts (map lits ws)) st) \<and> p = s2 \<and> at_boundary s2))"
    unfolding ends_WordBoundary_iff by blast
  also have "\<dots> \<longleftrightarrow> (at_boundary st \<and> at_boundary p
         \<and> p \<in> set (ends True (alts (map lits ws)) st))"
    by blast
  finally show ?thesis
    by (simp only: ends_alts_lits_iff [OF assms] ends_lits_pos_iff)
qed

lemma ends_span_pattern_mem:
  "p \<in> set (ends True (span_pattern w1 w2) st)
    \<longleftrightarrow> (\<exists>s2 s4. at_boundary st \<and> s2 \<in> set (ends True (lits w1) st) \<and> at_boundary s2
                 \<and> s4 \<in> set (ends True (Star Dot) s2) \<and> at_boundary s4
                 \<and> p \<in> set (ends True (lits w2) s4) \<and> at_boundary p)"
  by (simp only: span_pattern_def seqs.simps ends_Seq_iff Bex_def ends_WordBoundary_iff) blast

lemma ends_span_pattern_iff:
  "ends True (span_pattern w1 w2) (b, a) \<noteq> []
    \<longleftrightarrow> (\<exists>m1 gap m2 post.
           a = m1 @ gap @ m2 @ post \<and> ci_equal m1 w1 \<and> ci_equal m2 w2 \<and> CHR 0x0A \<notin> set gap
           \<and> at_boundary (b, a) \<and> at_boundary (b @ m1, gap @ m2 @ post)
           \<and> at_boundary (b @ m1 @ gap, m2 @ post) \<and> at_boundary (b @ m1 @ gap @ m2, post))"
  (is "?L \<longleftrightarrow> ?R")
proof
  assume ?L
  then obtain p where "p \<in> set (ends True (span_pattern w1 w2) (b, a))"
    by (cases "ends True (span_pattern w1 w2) (b, a)") auto
  then obtain s2 s4 where s: "at_boundary (b, a)" "s2 \<in> set (ends True (lits w1) (b, a))"
      "at_boundary s2" "s4 \<in> set (ends True (Star Dot) s2)" "at_boundary s4"
      "p \<in> set (ends True (lits w2) s4)" "at_boundary p"
    unfolding ends_span_pattern_mem by blast
  from s(2) obtain m1 where m1: "a = m1 @ snd s2" "fst s2 = b @ m1" "ci_equal m1 w1"
    unfolding ends_lits_pos_iff by auto
  from s(4) obtain gap where gap: "snd s2 = gap @ snd s4" "fst s4 = fst s2 @ gap"
      "CHR 0x0A \<notin> set gap"
    unfolding ends_Star_Dot_pos_iff by auto
  from s(6) obtain m2 where m2: "snd s4 = m2 @ snd p" "fst p = fst s4 @ m2" "ci_equal m2 w2"
    unfolding ends_lits_pos_iff by auto
  have e2: "s2 = (b @ m1, gap @ m2 @ snd p)" using m1 gap m2 by (cases s2) simp
  have e4: "s4 = (b @ m1 @ gap, m2 @ snd p)" using m1 gap m2 by (cases s4) simp
  have ep: "p = (b @ m1 @ gap @ m2, snd p)" using m1 gap m2 by (cases p) simp
  have "a = m1 @ gap @ m2 @ snd p" using m1 gap m2 by simp
  moreover have "at_boundary (b @ m1, gap @ m2 @ snd p)" using s(3) e2 by simp
  moreover have "at_boundary (b @ m1 @ gap, m2 @ snd p)" using s(5) e4 by simp
  moreover have "at_boundary (b @ m1 @ gap @ m2, snd p)" using s(7) ep by simp
  ultimately show ?R using m1(3) m2(3) gap(3) s(1) by blast
next
  assume ?R
  then obtain m1 gap m2 post where r: "a = m1 @ gap @ m2 @ post" "ci_equal m1 w1"
      "ci_equal m2 w2" "CHR 0x0A \<notin> set gap" "at_boundary (b, a)"
      "at_boundary (b @ m1, gap @ m2 @ post)" "at_boundary (b @ m1 @ gap, m2 @ post)"
      "at_boundary (b @ m1 @ gap @ m2, post)"
    by blast
  let ?s2 = "(b @ m1, gap @ m2 @ post)"
  let ?s4 = "(b @ m1 @ gap, m2 @ post)"
  let ?p = "(b @ m1 @ gap @ m2, post)"
  have "?s2 \<in> set (ends True (lits w1) (b, a))"
    unfolding ends_lits_pos_iff using r(1,2) by auto
  moreover have "?s4 \<in> set (ends True (Star Dot) ?s2)"
    unfolding ends_Star_Dot_pos_iff using r(4) by auto
  moreover have "?p \<in> set (ends True (lits w2) ?s4)"
    unfolding ends_lits_pos_iff using r(3) by auto
  ultimately have "?p \<in> set (ends True (span_pattern w1 w2) (b, a))"
    unfolding ends_span_pattern_mem using r(5,6,7,8) by blast
  then show ?L by auto
qed

lemma ends_word_pattern_iff:
  assumes "ws \<noteq> []"
  shows "ends True (word_pattern ws) (b, a) \<noteq> []
    \<longleftrightarrow> (\<exists>w \<in> set ws. \<exists>m post. a = m @ post \<and> ci_equal m w
           \<and> at_boundary (b, a) \<and> at_boundary (b @ m, post))"
  (is "?L \<longleftrightarrow> ?R")
proof
  assume ?L
  then obtain p where "p \<in> set (ends True (word_pattern ws) (b, a))"
    by (cases "ends True (word_pattern ws) (b, a)") auto
  then obtain w m where s: "at_boundary (b, a)" "at_boundary p" "w \<in> set ws"
      "a = m @ snd p" "fst p = b @ m" "ci_equal m w"
    unfolding ends_word_pattern_mem [OF assms] by auto
  then have "at_boundary (b @ m, snd p)" by (cases p) simp
  with s show ?R by blast
next
  assume ?R
  then obtain w m post where r: "w \<in> set ws" "a = m @ post" "ci_equal m w"
      "at_boundary (b, a)" "at_boundary (b @ m, post)"
    by blast
  then have "(b @ m, post) \<in> set (ends True (word_pattern ws) (b, a))"
    unfolding ends_word_pattern_mem [OF assms] by auto
  then show ?L by auto
qed

lemma boundaries_delimited:
  assumes "ci_equal m w" "word_ended w"
  shows "at_boundary (l, m @ r) \<and> at_boundary (l @ m, r) \<longleftrightarrow> delimited l r"
proof -
  from assms have m: "m \<noteq> []" "is_word (hd m)" "is_word (last m)"
    using ci_equal_word_ends [of m w] by (simp_all add: word_ended_def)
  have "at_boundary (l, m @ r) \<longleftrightarrow> \<not> (l \<noteq> [] \<and> is_word (last l))"
    using m by (intro at_boundary_before_word) simp_all
  moreover have "at_boundary (l @ m, r) \<longleftrightarrow> \<not> (r \<noteq> [] \<and> is_word (hd r))"
    using m by (intro at_boundary_after_word) simp_all
  ultimately show ?thesis by (simp add: delimited_def)
qed

lemma search_word_pattern:
  assumes "ws \<noteq> []" "\<forall>w \<in> set ws. word_ended w"
  shows "search True (word_pattern ws) ([], q) \<longleftrightarrow> (\<exists>w \<in> set ws. whole_word_occurrence w q)"
  (is "?L \<longleftrightarrow> ?R")
proof
  assume ?L
  then obtain pre rest where q: "q = pre @ rest" "ends True (word_pattern ws) ([] @ pre, rest) \<noteq> []"
    unfolding search_iff by blast
  then obtain w m post where w: "w \<in> set ws" "rest = m @ post" "ci_equal m w"
      "at_boundary (pre, rest)" "at_boundary (pre @ m, post)"
    using ends_word_pattern_iff [OF assms(1), of pre rest] by auto
  then have "delimited pre post"
    using boundaries_delimited [of m w pre post] assms(2) by blast
  with q w have "q = pre @ m @ post \<and> ci_equal m w \<and> delimited pre post" by simp
  then have "whole_word_occurrence w q" unfolding whole_word_occurrence_def by blast
  with w(1) show ?R by blast
next
  assume ?R
  then obtain w pre m post where w: "w \<in> set ws" "q = pre @ m @ post" "ci_equal m w"
      "delimited pre post"
    unfolding whole_word_occurrence_def by blast
  then have "at_boundary (pre, m @ post) \<and> at_boundary (pre @ m, post)"
    using boundaries_delimited [of m w pre post] assms(2) by blast
  with w have "ends True (word_pattern ws) ([] @ pre, m @ post) \<noteq> []"
    using ends_word_pattern_iff [OF assms(1), of pre "m @ post"] by auto
  with w(2) show ?L unfolding search_iff by blast
qed

lemma search_span_pattern:
  assumes "word_ended w1" "word_ended w2"
  shows "search True (span_pattern w1 w2) ([], q) \<longleftrightarrow> span_occurrence w1 w2 q"
  (is "?L \<longleftrightarrow> ?R")
proof
  assume ?L
  then obtain pre rest where q: "q = pre @ rest"
      "ends True (span_pattern w1 w2) ([] @ pre, rest) \<noteq> []"
    unfolding search_iff by blast
  then obtain m1 gap m2 post where r: "rest = m1 @ gap @ m2 @ post" "ci_equal m1 w1"
      "ci_equal m2 w2" "CHR 0x0A \<notin> set gap" "at_boundary (pre, rest)"
      "at_boundary (pre @ m1, gap @ m2 @ post)" "at_boundary (pre @ m1 @ gap, m2 @ post)"
      "at_boundary (pre @ m1 @ gap @ m2, post)"
    using ends_span_pattern_iff [of w1 w2 pre rest] by auto
  have "delimited pre (gap @ m2 @ post)"
    using boundaries_delimited [OF r(2) assms(1), of pre "gap @ m2 @ post"] r(1,5,6) by simp
  moreover have "delimited (pre @ m1 @ gap) post"
    using boundaries_delimited [OF r(3) assms(2), of "pre @ m1 @ gap" post] r(7,8) by simp
  moreover have "q = pre @ m1 @ gap @ m2 @ post" using q(1) r(1) by simp
  ultimately show ?R unfolding span_occurrence_def using r(2,3,4) by blast
next
  assume ?R
  then obtain pre m1 gap m2 post where r: "q = pre @ m1 @ gap @ m2 @ post" "ci_equal m1 w1"
      "ci_equal m2 w2" "CHR 0x0A \<notin> set gap" "delimited pre (gap @ m2 @ post)"
      "delimited (pre @ m1 @ gap) post"
    unfolding span_occurrence_def by blast
  have b1: "at_boundary (pre, m1 @ gap @ m2 @ post) \<and> at_boundary (pre @ m1, gap @ m2 @ post)"
    using boundaries_delimited [OF r(2) assms(1), of pre "gap @ m2 @ post"] r(5) by simp
  have b2: "at_boundary (pre @ m1 @ gap, m2 @ post) \<and> at_boundary (pre @ m1 @ gap @ m2, post)"
    using boundaries_delimited [OF r(3) assms(2), of "pre @ m1 @ gap" post] r(6) by simp
  have "ends True (span_pattern w1 w2) (pre, m1 @ gap @ m2 @ post) \<noteq> []"
    unfolding ends_span_pattern_iff using r(2,3,4) b1 b2 by blast
  then have "ends True (span_pattern w1 w2) ([] @ pre, m1 @ gap @ m2 @ post) \<noteq> []" by simp
  with r(1) show ?L unfolding search_iff by blast
qed

lemma NON_READONLY_PATTERNS_eq:
  "NON_READONLY_PATTERNS =
     [word_pattern mutating_keywords, span_pattern ''GRANT'' ''TO'', span_pattern ''REVOKE'' ''FROM'']"
  by (simp add: NON_READONLY_PATTERNS_def word_pattern_def span_pattern_def mutating_keywords_def)

lemma word_ended_keywords:
  "\<forall>w \<in> set mutating_keywords. word_ended w"
  "word_ended ''GRANT''" "word_ended ''TO''" "word_ended ''REVOKE''" "word_ended ''FROM''"
  by (simp_all add: word_ended_def mutating_keywords_def is_word_ascii_letter)

lemma no_pattern_matches_iff:
  "no_pattern_matches ps q \<longleftrightarrow> (\<forall>p \<in> set ps. \<not> search True p ([], q))"
  by (induction ps) auto

subsection \<open>The filter against the specification\<close>

text \<open>
  C1: \<^verbatim>\<open>is_readonly_query\<close> returns true exactly when no pattern of
  \<open>NON_READONLY_PATTERNS\<close> matches anywhere in the query; and that is the case exactly when
  the query contains none of the eight keywords as a whole word in any case, no span
  \<^verbatim>\<open>GRANT ... TO\<close> and no span \<^verbatim>\<open>REVOKE ... FROM\<close>. So it returns false for every query
  with such an occurrence, and true for every other query.
\<close>

theorem is_readonly_query_iff:
  "(is_readonly_query q \<longleftrightarrow> (\<forall>p \<in> set NON_READONLY_PATTERNS. \<not> search True p ([], q)))
   \<and> (is_readonly_query q \<longleftrightarrow>
        \<not> ((\<exists>w \<in> set mutating_keywords. whole_word_occurrence w q)
           \<or> span_occurrence ''GRANT'' ''TO'' q \<or> span_occurrence ''REVOKE'' ''FROM'' q))"
proof -
  have kw: "mutating_keywords \<noteq> []" by (simp add: mutating_keywords_def)
  have a: "is_readonly_query q \<longleftrightarrow> (\<forall>p \<in> set NON_READONLY_PATTERNS. \<not> search True p ([], q))"
    by (simp only: is_readonly_query_def no_pattern_matches_iff)
  have "(\<forall>p \<in> set NON_READONLY_PATTERNS. \<not> search True p ([], q))
      \<longleftrightarrow> \<not> (search True (word_pattern mutating_keywords) ([], q)
             \<or> search True (span_pattern ''GRANT'' ''TO'') ([], q)
             \<or> search True (span_pattern ''REVOKE'' ''FROM'') ([], q))"
    unfolding NON_READONLY_PATTERNS_eq by simp
  also have "\<dots> \<longleftrightarrow> \<not> ((\<exists>w \<in> set mutating_keywords. whole_word_occurrence w q)
           \<or> span_occurrence ''GRANT'' ''TO'' q \<or> span_occurrence ''REVOKE'' ''FROM'' q)"
    by (simp only: search_word_pattern [OF kw word_ended_keywords(1)]
          search_span_pattern [OF word_ended_keywords(2,3)]
          search_span_pattern [OF word_ended_keywords(4,5)])
  finally show ?thesis using a by blast
qed

theorem is_readonly_query_iff_witness:
  "whole_word_occurrence ''DROP'' ''a;drop t'' \<and> \<not> is_readonly_query ''a;drop t''
   \<and> is_readonly_query ''SELECT 1''
   \<and> \<not> (\<exists>w \<in> set mutating_keywords. whole_word_occurrence w ''SELECT 1'')"
proof -
  have c: "ci_equal ''drop'' ''DROP''" by code_simp
  have d: "delimited ''a;'' '' t''" by code_simp
  have "''a;drop t'' = ''a;'' @ ''drop'' @ '' t''" by simp
  with c d have occ: "whole_word_occurrence ''DROP'' ''a;drop t''"
    unfolding whole_word_occurrence_def by blast
  have kw: "''DROP'' \<in> set mutating_keywords" by (simp add: mutating_keywords_def)
  have ro: "is_readonly_query ''SELECT 1''" by code_simp
  show ?thesis
    using occ kw ro is_readonly_query_iff [of "''a;drop t''"] is_readonly_query_iff [of "''SELECT 1''"]
    by blast
qed

section \<open>Running a query\<close>

subsection \<open>Rejected queries\<close>

text \<open>
  C2: for every query that the safety filter rejects, \<^verbatim>\<open>run_query\<close> returns exactly the
  fixed rejection message and makes no call to the service, whatever the dry-run flag.
\<close>

theorem run_query_rejected:
  "\<not> is_readonly_query q \<Longrightarrow>
     run_query self q dry_run =
       ([], Inr (Message
          ''Error: Only read-only queries are allowed. Data modification operations detected.''))"
  by (simp add: run_query_def)

theorem run_query_rejected_witness:
  "\<not> is_readonly_query ''drop t''
   \<and> run_query sample_tool ''drop t'' True =
       ([], Inr (Message
          ''Error: Only read-only queries are allowed. Data modification operations detected.''))
   \<and> run_query sample_tool ''drop t'' False =
       ([], Inr (Message
          ''Error: Only read-only queries are allowed. Data modification operations detected.''))"
proof -
  have r: "\<not> is_readonly_query ''drop t''" by code_simp
  show ?thesis
    using r run_query_rejected [OF r, of sample_tool True] run_query_rejected [OF r, of sample_tool False]
    by simp
qed

subsection \<open>Dry runs\<close>

text \<open>
  \<^verbatim>\<open>str\<close> of an integer is its decimal numeral.
\<close>

lemma of_char_digit_char: "d < 10 \<Longrightarrow> (of_char (digit_char d) :: nat) = 48 + d"
  by (simp add: digit_char_def of_char_of)

lemma decimal_value_snoc:
  "decimal_value (s @ [c]) = 10 * decimal_value s + (of_char c - 48)"
  by (simp add: decimal_value_def)

lemma char_of_48: "char_of (48 :: nat) = CHR ''0''"
  by code_simp

lemma digit_char_zero: "d < 10 \<Longrightarrow> digit_char d = CHR ''0'' \<longleftrightarrow> d = 0"
proof
  assume d: "d < 10" and "digit_char d = CHR ''0''"
  then have "(of_char (digit_char d) :: nat) = of_char CHR ''0''" by simp
  with d show "d = 0" by (simp add: of_char_digit_char)
next
  assume "d = 0"
  then show "digit_char d = CHR ''0''" by (simp add: digit_char_def char_of_48)
qed

lemma digits_numeral: "is_numeral n (digits n)"
proof (induction n rule: digits.induct)
  case (1 n)
  show ?case
  proof (cases "n < 10")
    case True
    then have d: "digits n = [digit_char n]" by (subst digits.simps) simp
    show ?thesis
      unfolding d is_numeral_def using True
      by (simp add: of_char_digit_char decimal_value_def digit_char_zero)
  next
    case False
    let ?m = "n div 10" and ?r = "n mod 10"
    have d: "digits n = digits ?m @ [digit_char ?r]" using False by (subst digits.simps) simp
    from 1 False have ih: "is_numeral ?m (digits ?m)" by simp
    have r: "?r < 10" by simp
    from ih have ne: "digits ?m \<noteq> []" by (simp add: is_numeral_def)
    have m0: "?m \<noteq> 0" using False by simp
    have hd0: "hd (digits ?m) \<noteq> CHR ''0''"
    proof
      assume "hd (digits ?m) = CHR ''0''"
      with ih have "digits ?m = ''0''" by (simp add: is_numeral_def)
      with ih have "?m = 0" by (simp add: is_numeral_def decimal_value_def)
      with m0 show False by simp
    qed
    have "decimal_value (digits n) = 10 * ?m + ?r"
      using ih r by (simp add: d decimal_value_snoc is_numeral_def of_char_digit_char)
    then have v: "decimal_value (digits n) = n" by simp
    have a: "list_all (\<lambda>c. 48 \<le> (of_char c :: nat) \<and> (of_char c :: nat) \<le> 57) (digits n)"
      using ih r by (simp add: d is_numeral_def of_char_digit_char)
    have h: "hd (digits n) \<noteq> CHR ''0''" using ne hd0 by (simp add: d)
    show ?thesis unfolding is_numeral_def using v a h ne by (simp add: d)
  qed
qed

lemma str_int_decimal: "is_decimal i (str_int i)"
  by (simp add: is_decimal_def str_int_def digits_numeral)

lemma str_int_2048: "str_int 2048 = ''2048''"
  by code_simp

text \<open>
  C4, as stated: every accepted query with the dry-run flag set returns a message with the
  estimate of bytes processed that the service reports. On a client whose submission of
  the query meets a service error the accepted query returns the error report, which
  holds no estimate.
\<close>

theorem run_query_dry_run_counterexample:
  "is_readonly_query ''SELECT 1''
   \<and> run_query rejecting_tool ''SELECT 1'' True =
       ([QueryCall ''SELECT 1'' True], Inr (Message ''Error executing query: Syntax error''))"
proof -
  have r: "is_readonly_query ''SELECT 1''" by code_simp
  then show ?thesis
    by (simp add: run_query_def rejecting_tool_def rejecting_client_def sample_client_def)
qed

text \<open>
  C4, amended: for every accepted query with the dry-run flag set, \<^verbatim>\<open>run_query\<close> makes one
  call to the service, the submission of the caller's query for validation, and never asks
  for the result. When the service answers with a job that reports an estimate \<open>n\<close>, the
  returned message is the fixed text around the decimal numeral of \<open>n\<close>; when the
  submission meets a service error, the returned message is the report of that error.
\<close>

theorem run_query_dry_run:
  assumes "is_readonly_query q"
  shows "fst (run_query self q True) = [QueryCall q True]
    \<and> (\<forall>job n. query (client self) q True = Inr job \<and> total_bytes_processed job = Some n \<longrightarrow>
          (\<exists>s. is_decimal n s
              \<and> snd (run_query self q True) =
                  Inr (Message (''Query validation successful. Estimated bytes processed: ''
                                @ s @ '' bytes.''))))
    \<and> (\<forall>e. query (client self) q True = Inl (GoogleCloudError e) \<longrightarrow>
          snd (run_query self q True) = Inr (Message (''Error executing query: '' @ e)))"
proof -
  have a: "fst (run_query self q True) = [QueryCall q True]"
    using assms by (auto simp: run_query_def split: sum.splits)
  have b: "\<exists>s. is_decimal n s
              \<and> snd (run_query self q True) =
                  Inr (Message (''Query validation successful. Estimated bytes processed: ''
                                @ s @ '' bytes.''))"
    if "query (client self) q True = Inr job" "total_bytes_processed job = Some n" for job n
  proof -
    have "snd (run_query self q True) =
            Inr (Message (''Query validation successful. Estimated bytes processed: ''
                          @ str_int n @ '' bytes.''))"
      using assms that by (simp add: run_query_def)
    with str_int_decimal [of n] show ?thesis by blast
  qed
  have c: "snd (run_query self q True) = Inr (Message (''Error executing query: '' @ e))"
    if "query (client self) q True = Inl (GoogleCloudError e)" for e
    using assms that by (simp add: run_query_def)
  from a b c show ?thesis by blast
qed

theorem run_query_dry_run_witness:
  "is_readonly_query ''SELECT 1''
   \<and> query (client sample_tool) ''SELECT 1'' True = Inr sample_job
   \<and> total_bytes_processed sample_job = Some 2048
   \<and> is_decimal 2048 ''2048''
   \<and> run_query sample_tool ''SELECT 1'' True =
       ([QueryCall ''SELECT 1'' True],
        Inr (Message ''Query validation successful. Estimated bytes processed: 2048 bytes.''))"
proof -
  have r: "is_readonly_query ''SELECT 1''" by code_simp
  have q: "query (client sample_tool) ''SELECT 1'' True = Inr sample_job"
    by (simp add: sample_tool_def sample_client_def)
  have b: "total_bytes_processed sample_job = Some 2048" by (simp add: sample_job_def)
  have d: "is_decimal 2048 ''2048''"
    using str_int_decimal [of 2048] by (simp add: str_int_2048)
  from run_query_dry_run [OF r, of sample_tool] q b
  have f: "fst (run_query sample_tool ''SELECT 1'' True) = [QueryCall ''SELECT 1'' True]"
    and "\<exists>s. is_decimal 2048 s
              \<and> snd (run_query sample_tool ''SELECT 1'' True) =
                  Inr (Message (''Query validation successful. Estimated bytes processed: ''
                                @ s @ '' bytes.''))"
    by blast+
  have s: "snd (run_query sample_tool ''SELECT 1'' True) =
       Inr (Message ''Query validation successful. Estimated bytes processed: 2048 bytes.'')"
    using r q b by (simp add: run_query_def str_int_2048)
  from f s have "run_query sample_tool ''SELECT 1'' True =
       ([QueryCall ''SELECT 1'' True],
        Inr (Message ''Query validation successful. Estimated bytes processed: 2048 bytes.''))"
    by (simp add: prod_eq_iff)
  with r q b d show ?thesis by blast
qed

subsection \<open>Executed queries\<close>

lemma fill_row_append:
  "fill_row row (es1 @ es2) d =
     (case fill_row row es1 d of Inl e \<Rightarrow> Inl e | Inr d' \<Rightarrow> fill_row row es2 d')"
  by (induction es1 arbitrary: d) auto

lemma keys_dict_set:
  "map fst (dict_set d k v) = (if k \<in> set (map fst d) then map fst d else map fst d @ [k])"
  by (induction d) force+

lemma dict_set_fresh: "k \<notin> set (map fst d) \<Longrightarrow> dict_set d k v = d @ [(k, v)]"
  by (induction d) auto

lemma zip_snoc_nth:
  "length xs < length zs \<Longrightarrow> zip (xs @ [x]) zs = zip xs zs @ [(x, zs ! length xs)]"
proof (induction xs arbitrary: zs)
  case Nil
  then show ?case by (cases zs) auto
next
  case (Cons y ys)
  then show ?case by (cases zs) auto
qed

lemma fill_row_total:
  "length names \<le> length row \<Longrightarrow>
     \<exists>d. fill_row row (enumerate 0 names) [] = Inr d
        \<and> map fst d = rev (remdups (rev names))
        \<and> (distinct names \<longrightarrow> d = zip names (map Scalar row))"
proof (induction names rule: rev_induct)
  case Nil
  show ?case by simp
next
  case (snoc x xs)
  then have len: "length xs < length row" by simp
  with snoc obtain d where d: "fill_row row (enumerate 0 xs) [] = Inr d"
      "map fst d = rev (remdups (rev xs))" "distinct xs \<longrightarrow> d = zip xs (map Scalar row)"
    by auto
  let ?d = "dict_set d x (Scalar (row ! length xs))"
  have run: "fill_row row (enumerate 0 (xs @ [x])) [] = Inr ?d"
    using d(1) len by (simp add: enumerate_append_eq fill_row_append)
  have keys: "map fst ?d = rev (remdups (rev (xs @ [x])))"
    using d(2) by (simp add: keys_dict_set)
  have "?d = zip (xs @ [x]) (map Scalar row)" if dist: "distinct (xs @ [x])"
  proof -
    from dist d(3) have e: "d = zip xs (map Scalar row)" by simp
    from dist d(2) have "x \<notin> set (map fst d)" by simp
    then have "?d = d @ [(x, Scalar (row ! length xs))]" by (rule dict_set_fresh)
    also have "\<dots> = zip (xs @ [x]) (map Scalar row)"
      using len e by (simp add: zip_snoc_nth)
    finally show ?thesis .
  qed
  with run keys show ?case by blast
qed

lemma collect_rows_ok:
  assumes "row_count < 5" "take (5 - row_count) steps = map Inr rs"
    and "\<forall>r \<in> set rs. length names \<le> length r"
  shows "\<exists>ds. collect_rows names steps acc row_count = Inr (acc @ ds) \<and> length ds = length rs
           \<and> (\<forall>j < length rs. fill_row (rs ! j) (enumerate 0 names) [] = Inr (ds ! j))"
  using assms
proof (induction steps arbitrary: rs acc row_count)
  case Nil
  then show ?case by simp
next
  case (Cons s steps)
  from Cons.prems(1) obtain k where k: "5 - row_count = Suc k" by (cases "5 - row_count") auto
  with Cons.prems(2) obtain r rs' where rs: "rs = r # rs'" "s = Inr r" "take k steps = map Inr rs'"
    by (cases rs) auto
  from Cons.prems(3) rs have "length names \<le> length r" by simp
  then obtain d where d: "fill_row r (enumerate 0 names) [] = Inr d"
    using fill_row_total [of names r] by blast
  show ?case
  proof (cases "row_count + 1 \<ge> 5")
    case True
    with k have "k = 0" by arith
    with rs have "rs' = []" by simp
    with rs d True show ?thesis by simp
  next
    case False
    then have lt: "row_count + 1 < 5" by simp
    have "5 - (row_count + 1) = k" using k by arith
    then have tk: "take (5 - (row_count + 1)) steps = map Inr rs'" using rs(3) by simp
    from Cons.prems(3) rs have "\<forall>r \<in> set rs'. length names \<le> length r" by simp
    from Cons.IH [OF lt tk this, of "acc @ [d]"]
    obtain ds where ds: "collect_rows names steps (acc @ [d]) (row_count + 1) = Inr ((acc @ [d]) @ ds)"
        "length ds = length rs'"
        "\<forall>j < length rs'. fill_row (rs' ! j) (enumerate 0 names) [] = Inr (ds ! j)"
      by blast
    have "collect_rows names (s # steps) acc row_count = Inr (acc @ (d # ds))"
      using rs d False ds(1) by simp
    moreover have "length (d # ds) = length rs" using rs ds(2) by simp
    moreover have "\<forall>j < length rs. fill_row (rs ! j) (enumerate 0 names) [] = Inr ((d # ds) ! j)"
      using rs d ds(3) by (auto simp: nth_Cons split: nat.splits)
    ultimately show ?thesis by blast
  qed
qed

text \<open>
  C3: let an accepted query be executed: the service returns a job, the job a row iterator,
  and the first five steps of the iteration (or all of them, if fewer) yield the rows
  \<open>rs\<close>, each with a value for every schema field. Then \<^verbatim>\<open>run_query\<close> submits the caller's
  query text unchanged, asks for the result once, and returns one dictionary per row of
  \<open>rs\<close>, in the same order, hence at most five, however many rows the iterator holds. The
  keys of each dictionary are the schema's column names in schema order (a repeated name
  stays at its first place), and with distinct column names each dictionary pairs the
  names with the row's values in schema order.
\<close>

theorem run_query_rows:
  assumes "is_readonly_query q"
    and "query (client self) q False = Inr job"
    and "result job 5 = Inr results"
    and "take 5 (iter_rows results) = map Inr rs"
    and "\<forall>r \<in> set rs. length (schema results) \<le> length r"
  shows "\<exists>ds. run_query self q False = ([QueryCall q False, ResultCall 5], Inr (Table ds))
     \<and> length ds = length rs \<and> length ds \<le> 5
     \<and> (\<forall>j < length ds.
           map fst (ds ! j) = rev (remdups (rev (map field_name (schema results))))
           \<and> (distinct (map field_name (schema results)) \<longrightarrow>
                ds ! j = zip (map field_name (schema results)) (map Scalar (rs ! j))))"
proof -
  let ?names = "map field_name (schema results)"
  have w: "\<forall>r \<in> set rs. length ?names \<le> length r" using assms(5) by simp
  have t: "take (5 - 0) (iter_rows results) = map Inr rs" using assms(4) by simp
  from collect_rows_ok [of 0 "iter_rows results" rs ?names "[]", OF _ t w]
  obtain ds where ds: "collect_rows ?names (iter_rows results) [] 0 = Inr ds"
      "length ds = length rs"
      "\<forall>j < length rs. fill_row (rs ! j) (enumerate 0 ?names) [] = Inr (ds ! j)"
    by auto
  have run: "run_query self q False = ([QueryCall q False, ResultCall 5], Inr (Table ds))"
    using assms(1,2,3) ds(1) by (simp add: run_query_def)
  have "length rs \<le> 5"
    using arg_cong [OF assms(4), of length] by simp
  then have le: "length ds \<le> 5" using ds(2) by simp
  have rows: "map fst (ds ! j) = rev (remdups (rev ?names))
           \<and> (distinct ?names \<longrightarrow> ds ! j = zip ?names (map Scalar (rs ! j)))"
    if j: "j < length ds" for j
  proof -
    from j ds(2) have jr: "j < length rs" by simp
    with w have "length ?names \<le> length (rs ! j)" by simp
    from fill_row_total [OF this] ds(3) jr show ?thesis by auto
  qed
  from run ds(2) le rows show ?thesis by blast
qed

theorem run_query_rows_witness:
  "is_readonly_query ''SELECT 1''
   \<and> length (iter_rows sample_results) = 7
   \<and> (\<exists>ds. run_query sample_tool ''SELECT 1'' False
              = ([QueryCall ''SELECT 1'' False, ResultCall 5], Inr (Table ds))
          \<and> length ds = 5
          \<and> ds ! 0 = [(''a'', Scalar 1), (''b'', Scalar 2)]
          \<and> ds ! 4 = [(''a'', Scalar 9), (''b'', Scalar 10)])"
proof -
  let ?rs = "[[1, 2], [3, 4], [5, 6], [7, 8], [9, 10 :: nat]]"
  have r: "is_readonly_query ''SELECT 1''" by code_simp
  have q: "query (client sample_tool) ''SELECT 1'' False = Inr sample_job"
    by (simp add: sample_tool_def sample_client_def)
  have j: "result sample_job 5 = Inr sample_results" by (simp add: sample_job_def)
  have t: "take 5 (iter_rows sample_results) = map Inr ?rs"
    by (simp add: sample_results_def)
  have n: "map field_name (schema sample_results) = [''a'', ''b'']"
    by (simp add: sample_results_def sample_field_def)
  have w: "\<forall>r \<in> set ?rs. length (schema sample_results) \<le> length r"
    by (simp add: sample_results_def)
  from run_query_rows [OF r q j t w]
  obtain ds where ds: "run_query sample_tool ''SELECT 1'' False
              = ([QueryCall ''SELECT 1'' False, ResultCall 5], Inr (Table ds))"
      "length ds = length ?rs"
      "\<forall>j < length ds. distinct (map field_name (schema sample_results)) \<longrightarrow>
                ds ! j = zip (map field_name (schema sample_results)) (map Scalar (?rs ! j))"
    by blast
  from ds(2) have l: "length ds = 5" by simp
  from ds(3) l n have "ds ! 0 = [(''a'', Scalar 1), (''b'', Scalar 2)]" by simp
  moreover from ds(3) l n have "ds ! 4 = [(''a'', Scalar 9), (''b'', Scalar 10)]" by simp
  moreover have "length (iter_rows sample_results) = 7" by (simp add: sample_results_def)
  ultimately show ?thesis using r ds(1) l by blast
qed

section \<open>Listing\<close>

lemma dataset_rows_eq: "dataset_rows c ids res = res @ map (dataset_row c) ids"
  by (induction ids arbitrary: res)
     (auto simp: dataset_row_def Let_def split: sum.splits option.splits)

text \<open>
  What \<^verbatim>\<open>list_datasets\<close> does: whenever the enumeration of the datasets succeeds, it returns
  one row per listed dataset, in order; a dataset whose descriptor cannot be fetched gets
  the empty description.
\<close>

lemma list_datasets_degrades:
  assumes "client_list_datasets (client self) = Inr ids"
  shows "snd (list_datasets self) = Inr (map (dataset_row (client self)) ids)
     \<and> (\<forall>i e. get_dataset (client self) i = Inl e \<longrightarrow>
          dataset_row (client self) i = [(''Dataset ID'', Text i), (''Description'', Text '''')])"
  using assms by (simp add: list_datasets_def dataset_rows_eq dataset_row_def)

text \<open>
  C6: a failure to fetch one item's descriptor during a listing leaves that item with an
  empty description and the other items are still returned. \<^verbatim>\<open>list_tables\<close> does not do
  this. On the sample client two tables are listed and the descriptor of the first cannot
  be fetched: \<^verbatim>\<open>list_tables\<close> prints the error and exits with status 1, and the second
  table, whose descriptor can be fetched, is not returned. On the same client, with the
  descriptor of the first of two datasets failing in the same way, \<^verbatim>\<open>list_datasets\<close>
  returns both rows.
\<close>

theorem list_tables_item_failure:
  "client_list_tables (client sample_tool) ''d'' = Inr [''t1'', ''t2'']
   \<and> get_table (client sample_tool) ''d'' ''t1'' = Inl (GoogleCloudError ''denied'')
   \<and> get_table (client sample_tool) ''d'' ''t2'' = Inr sample_table
   \<and> list_tables sample_tool ''d'' =
       ([(Stdout, ''Error listing tables in dataset d: denied'')], Inl (SysExit 1))
   \<and> client_list_datasets (client sample_tool) = Inr [''d1'', ''d2'']
   \<and> get_dataset (client sample_tool) ''d1'' = Inl (GoogleCloudError ''denied'')
   \<and> list_datasets sample_tool =
       ([], Inr [[(''Dataset ID'', Text ''d1''), (''Description'', Text '''')],
                 [(''Dataset ID'', Text ''d2''), (''Description'', Text ''second'')]])"
  by (simp add: list_tables_def list_datasets_def sample_tool_def sample_client_def)

section \<open>Session bootstrap\<close>

text \<open>
  C9, as stated: the resolved project identifier is non-empty. With the explicit argument
  \<^verbatim>\<open>""\<close> and a client constructor that keeps the project it is given, the session is
  resolved with the empty identifier.
\<close>

theorem empty_identifier_counterexample:
  "BigQueryTool_init keeping_Client (Some '''') =
     ([(Stderr, ''Connected to BigQuery project: '')],
      Inr \<lparr>client = sample_client\<lparr>project := ''''\<rparr>, project_id = ''''\<rparr>)"
  by (simp add: BigQueryTool_init_def Let_def keeping_Client_def)

text \<open>
  C9, amended: once the client is connected, an explicit project argument that is not
  empty is the session's project identifier, and so is every explicit argument that the
  client keeps as its project; with no argument, or an empty one, the identifier is the
  client's project. The identifier is non-empty exactly when the explicit argument is
  non-empty or the client's project is.
\<close>

theorem project_id_resolved:
  assumes "Client_fn project_arg = Inr c"
  shows "\<exists>bq. snd (BigQueryTool_init Client_fn project_arg) = Inr bq \<and> client bq = c
     \<and> (\<forall>p. project_arg = Some p \<and> p \<noteq> [] \<longrightarrow> project_id bq = p)
     \<and> (\<forall>p. project_arg = Some p \<and> project c = p \<longrightarrow> project_id bq = p)
     \<and> (project_arg = None \<or> project_arg = Some [] \<longrightarrow> project_id bq = project c)
     \<and> (project_id bq \<noteq> [] \<longleftrightarrow> (\<exists>p. project_arg = Some p \<and> p \<noteq> []) \<or> project c \<noteq> [])"
  using assms by (auto simp: BigQueryTool_init_def Let_def split: option.splits)

theorem project_id_resolved_witness:
  "keeping_Client (Some ''p1'') = Inr (sample_client\<lparr>project := ''p1''\<rparr>)
   \<and> snd (BigQueryTool_init keeping_Client (Some ''p1''))
       = Inr \<lparr>client = sample_client\<lparr>project := ''p1''\<rparr>, project_id = ''p1''\<rparr>
   \<and> keeping_Client None = Inr sample_client
   \<and> snd (BigQueryTool_init keeping_Client None) = Inr sample_tool"
proof -
  have c1: "keeping_Client (Some ''p1'') = Inr (sample_client\<lparr>project := ''p1''\<rparr>)"
    by (simp add: keeping_Client_def)
  have c2: "keeping_Client None = Inr sample_client"
    by (simp add: keeping_Client_def sample_client_def)
  from project_id_resolved [of keeping_Client "Some ''p1''" "sample_client\<lparr>project := ''p1''\<rparr>"] c1
  obtain bq where bq: "snd (BigQueryTool_init keeping_Client (Some ''p1'')) = Inr bq"
      "client bq = sample_client\<lparr>project := ''p1''\<rparr>" "project_id bq = ''p1''"
    by auto
  then have e1: "bq = \<lparr>client = sample_client\<lparr>project := ''p1''\<rparr>, project_id = ''p1''\<rparr>" by simp
  from project_id_resolved [of keeping_Client None sample_client] c2
  obtain bq' where bq': "snd (BigQueryTool_init keeping_Client None) = Inr bq'"
      "client bq' = sample_client" "project_id bq' = project sample_client"
    by auto
  then have e2: "bq' = sample_tool" by (simp add: sample_tool_def sample_client_def)
  show ?thesis using c1 c2 bq(1) e1 bq'(1) e2 by simp
qed

text \<open>
  C10, as stated: with the empty string as explicit argument the session resolves to the
  client's default project, not to the empty string. With a client constructor that keeps
  the project it is given, whose default project is \<^verbatim>\<open>default-project\<close>, the session
  resolves to the empty string.
\<close>

theorem empty_project_argument_counterexample:
  "keeping_Client None = Inr sample_client
   \<and> project sample_client = ''default-project''
   \<and> snd (BigQueryTool_init keeping_Client (Some ''''))
       = Inr \<lparr>client = sample_client\<lparr>project := ''''\<rparr>, project_id = ''''\<rparr>
   \<and> '''' \<noteq> ''default-project''"
  by (simp add: BigQueryTool_init_def Let_def keeping_Client_def sample_client_def)

text \<open>
  C10, amended: when the explicit project argument is the empty string, the session's
  project identifier is not taken from the argument but read from the client that was
  constructed with it (\<^verbatim>\<open>self.client.project\<close>), and the status line reports it; the
  identifier is empty exactly when that client's project is empty.
\<close>

theorem empty_project_argument:
  assumes "Client_fn (Some '''') = Inr c"
  shows "BigQueryTool_init Client_fn (Some '''') =
           ([(Stderr, ''Connected to BigQuery project: '' @ project c)],
            Inr \<lparr>client = c, project_id = project c\<rparr>)
     \<and> (\<forall>bq. snd (BigQueryTool_init Client_fn (Some '''')) = Inr bq \<longrightarrow>
           (project_id bq = [] \<longleftrightarrow> project c = []))"
  using assms by (simp add: BigQueryTool_init_def Let_def)

theorem empty_project_argument_witness:
  "Client sample_world (Some '''') = Inr sample_client
   \<and> BigQueryTool_init (Client sample_world) (Some '''') =
           ([(Stderr, ''Connected to BigQuery project: default-project'')],
            Inr \<lparr>client = sample_client, project_id = ''default-project''\<rparr>)
   \<and> keeping_Client (Some '''') = Inr (sample_client\<lparr>project := ''''\<rparr>)
   \<and> BigQueryTool_init keeping_Client (Some '''') =
           ([(Stderr, ''Connected to BigQuery project: '')],
            Inr \<lparr>client = sample_client\<lparr>project := ''''\<rparr>, project_id = ''''\<rparr>)"
proof -
  have c: "Client sample_world (Some '''') = Inr sample_client"
    by (simp add: sample_world_def)
  have k: "keeping_Client (Some '''') = Inr (sample_client\<lparr>project := ''''\<rparr>)"
    by (simp add: keeping_Client_def)
  show ?thesis
    using c k empty_project_argument [of "Client sample_world" sample_client]
      empty_project_argument [of keeping_Client "sample_client\<lparr>project := ''''\<rparr>"]
    by (simp add: sample_client_def)
qed

section \<open>The process as a whole\<close>

subsection \<open>Exit status of the parts\<close>


lemma isl_fatal: "isl (snd (fatal msg e))"
  by (cases e) simp_all















subsection \<open>Exit status\<close>




subsection \<open>Streams\<close>

text \<open>
  C8: every bootstrap diagnostic goes to the diagnostic stream and none to standard
  output. The program does not do this for the warning about the missing credential
  variable. Without the variable, a run of \<^verbatim>\<open>get-schema\<close> writes the four lines of the
  warning to standard output, before the connected-project line on the diagnostic stream
  and the table on standard output. With the variable set, the other branch of the same
  test writes its status line to the diagnostic stream.
\<close>

theorem credential_warning_stream:
  "environ_credentials sample_world = None
   \<and> script sample_world [''get-schema'', ''d'', ''t2''] =
       ([(Stdout, ''Warning: GOOGLE_APPLICATION_CREDENTIALS environment variable is not set.''),
         (Stdout, ''Set it in your .env file to the path of your service account key file:''),
         (Stdout, ''GOOGLE_APPLICATION_CREDENTIALS=/path/to/your-key-file.json''),
         (Stdout, ''Continuing with default authentication...''),
         (Stderr, ''Connected to BigQuery project: default-project''),
         (Stdout, ''| table |'')],
        Inr ())
   \<and> environ_credentials sample_world_key = Some ''key.json''
   \<and> script sample_world_key [''get-schema'', ''d'', ''t2''] =
       ([(Stderr, ''Using service account key: key.json''),
         (Stderr, ''Connected to BigQuery project: default-project''),
         (Stdout, ''| table |'')],
        Inr ())"
  by (simp add: script_def main_def run_command_def BigQueryTool_init_def Let_def get_schema_def
        print_result_def format_output_def render_stub_def sample_table_def
        sample_world_key_def sample_world_def sample_client_def)

end
